theory Spec2Isabelle
  imports Main "HOL-Library.Word"
begin

unbundle bit_operations_syntax

section \<open>The xor tool: a shallow embedding of \<^verbatim>\<open>xor_files\<close> (src/xor.c)\<close>

text \<open>
  The tool reads two byte streams with \<^verbatim>\<open>fread\<close>, XORs them chunk by chunk, pads the
  shorter chunk with zero bytes, collects the result in a growing buffer, strips the
  trailing zero bytes of the buffer unless \<^verbatim>\<open>preserve_zeros\<close> is set, and writes
  the buffer to standard output.

  Modelling decisions:
  \<^item> a byte (\<^verbatim>\<open>unsigned char\<close>) is an \<open>8 word\<close>;
  \<^item> sizes (\<^verbatim>\<open>size_t\<close>) are natural numbers: every size of the function is bounded
    by the number of bytes held in memory, so no size wraps around;
  \<^item> the buffer \<^verbatim>\<open>all_data\<close> and its size \<^verbatim>\<open>total_size\<close> are one byte list,
    whose length is \<^verbatim>\<open>total_size\<close>;
  \<^item> the two chunk arrays live on the stack with indeterminate contents: they are functions
    from offsets to bytes whose initial values are parameters of the model;
  \<^item> \<^verbatim>\<open>die\<close> ends the process with an exit status: it is the \<open>Inl\<close> branch of the
    result; allocation and write failures come from an environment;
  \<^item> the progress lines go to the diagnostic stream and are not modelled, and neither is
    the counter \<^verbatim>\<open>bytes_processed\<close>, which only those lines read;
  \<^item> the flag \<^verbatim>\<open>interrupted\<close> is set by the signal handler alone, which ends the
    process through \<^verbatim>\<open>die\<close> before the loop can test the flag again: the loop
    condition of a run that goes on is always true.
\<close>

subsection \<open>Constants\<close>

type_synonym byte = "8 word"

definition CHUNK_SIZE :: nat where
  "CHUNK_SIZE = 65536"

definition EXIT_SUCCESS :: nat where
  "EXIT_SUCCESS = 0"

definition EXIT_ERROR :: nat where
  "EXIT_ERROR = 1"

subsection \<open>Input streams and \<^verbatim>\<open>fread\<close>\<close>

text \<open>
  A stream holds the bytes it can still deliver. What ends them is either the end of the
  file or a read error (\<open>failing\<close>); \<^verbatim>\<open>fread\<close> returns fewer items than asked for in
  these two cases only, and sets the error indicator (what \<^verbatim>\<open>ferror\<close> reports) in the
  second.
\<close>

record stream =
  rest :: "byte list"
  failing :: bool
  error_indicator :: bool

text \<open>The stream over a readable file of the given contents, as opened for reading.\<close>

definition open_input_stream :: "byte list \<Rightarrow> stream" where
  "open_input_stream bs = \<lparr>rest = bs, failing = False, error_indicator = False\<rparr>"

text \<open>
  \<^verbatim>\<open>fread(chunk, 1, n, stream)\<close>: the number of bytes read, the chunk with these bytes
  stored from offset 0 on, and the stream after the call.
\<close>

definition fread :: "(nat \<Rightarrow> byte) \<Rightarrow> nat \<Rightarrow> stream \<Rightarrow> nat \<times> (nat \<Rightarrow> byte) \<times> stream" where
  "fread chunk n s =
     (let got = take n (rest s)
      in (length got,
          (\<lambda>i. if i < length got then got ! i else chunk i),
          s\<lparr>rest := drop n (rest s),
            error_indicator := (error_indicator s \<or> (length (rest s) < n \<and> failing s))\<rparr>))"

text \<open>\<^verbatim>\<open>memset(chunk + off, c, n)\<close>.\<close>

definition memset :: "(nat \<Rightarrow> byte) \<Rightarrow> nat \<Rightarrow> byte \<Rightarrow> nat \<Rightarrow> (nat \<Rightarrow> byte)" where
  "memset chunk off c n = (\<lambda>i. if off \<le> i \<and> i < off + n then c else chunk i)"

subsection \<open>The environment: allocation and the output sink\<close>

text \<open>
  \<open>malloc_ok e t n\<close>: does \<^verbatim>\<open>malloc(n)\<close> return a block in the iteration that starts
  with \<open>t\<close> bytes collected; \<open>realloc_ok e t n\<close>: the same for
  \<^verbatim>\<open>realloc(all_data, n)\<close>; \<open>fwrite_count e bs\<close>: the number of bytes that
  \<^verbatim>\<open>fwrite\<close> reports written when asked to write \<open>bs\<close>.
\<close>

record env =
  malloc_ok :: "nat \<Rightarrow> nat \<Rightarrow> bool"
  realloc_ok :: "nat \<Rightarrow> nat \<Rightarrow> bool"
  fwrite_count :: "byte list \<Rightarrow> nat"

datatype error = MemoryAllocationFailed | WriteError

text \<open>Both calls of \<^verbatim>\<open>die\<close> in \<^verbatim>\<open>xor_files\<close> pass \<^verbatim>\<open>EXIT_ERROR\<close>.\<close>

definition die_code :: "error \<Rightarrow> nat" where
  "die_code err = EXIT_ERROR"

subsection \<open>The read loop\<close>

record xor_state =
  stream1 :: stream
  stream2 :: stream
  chunk1 :: "nat \<Rightarrow> byte"
  chunk2 :: "nat \<Rightarrow> byte"
  all_data :: "byte list"

datatype step = Break | Abort error | Continue xor_state

text \<open>One iteration of the \<^verbatim>\<open>while\<close> loop (lines 139 to 182).\<close>

definition xor_step :: "env \<Rightarrow> nat \<Rightarrow> xor_state \<Rightarrow> step" where
  "xor_step e n st =
     (case fread (chunk1 st) n (stream1 st) of (read1, c1, s1) \<Rightarrow>
      case fread (chunk2 st) n (stream2 st) of (read2, c2, s2) \<Rightarrow>
        if read1 = 0 \<and> read2 = 0 then Break
        else
          let max_len = (if read1 > read2 then read1 else read2);
              c1 = (if read1 < max_len then memset c1 read1 0 (max_len - read1) else c1);
              c2 = (if read2 < max_len then memset c2 read2 0 (max_len - read2) else c2)
          in if \<not> malloc_ok e (length (all_data st)) max_len
             then Abort MemoryAllocationFailed
             else
               let result_chunk = map (\<lambda>i. c1 i XOR c2 i) [0..<max_len]
               in if \<not> realloc_ok e (length (all_data st)) (length (all_data st) + max_len)
                  then Abort MemoryAllocationFailed
                  else Continue \<lparr>stream1 = s1, stream2 = s2, chunk1 = c1, chunk2 = c2,
                                  all_data = all_data st @ result_chunk\<rparr>)"

text \<open>The loop: the buffer collected when the loop is left, or the error of \<^verbatim>\<open>die\<close>.\<close>

function xor_loop :: "env \<Rightarrow> nat \<Rightarrow> xor_state \<Rightarrow> error + byte list" where
  "xor_loop e n st =
     (case xor_step e n st of
        Break \<Rightarrow> Inr (all_data st)
      | Abort err \<Rightarrow> Inl err
      | Continue st' \<Rightarrow> xor_loop e n st')"
  by pat_completeness auto
termination
proof (relation "measure (\<lambda>(e, n, st). length (rest (stream1 st)) + length (rest (stream2 st)))")
  show "wf (measure (\<lambda>(e, n, st). length (rest (stream1 st)) + length (rest (stream2 st))))"
    by simp
next
  fix e :: env and n :: nat and st st' :: xor_state
  assume step: "xor_step e n st = Continue st'"
  then have nz: "take n (rest (stream1 st)) \<noteq> [] \<or> take n (rest (stream2 st)) \<noteq> []"
    by (auto simp: xor_step_def fread_def Let_def split: if_splits)
  from step have r1: "rest (stream1 st') = drop n (rest (stream1 st))"
    and r2: "rest (stream2 st') = drop n (rest (stream2 st))"
    by (auto simp: xor_step_def fread_def Let_def split: if_splits)
  from nz have "0 < n"
    by (cases n) auto
  with nz have "length (rest (stream1 st')) + length (rest (stream2 st'))
      < length (rest (stream1 st)) + length (rest (stream2 st))"
    unfolding r1 r2 by (cases "rest (stream1 st)"; cases "rest (stream2 st)") auto
  then show "((e, n, st'), (e, n, st))
      \<in> measure (\<lambda>(e, n, st). length (rest (stream1 st)) + length (rest (stream2 st)))"
    by simp
qed

declare xor_loop.simps [simp del]

subsection \<open>Trailing zeros and the write\<close>

text \<open>
  \<^verbatim>\<open>while (output_size > 0 && all_data[output_size - 1] == 0) output_size--;\<close>
  as a function of the buffer and the current \<^verbatim>\<open>output_size\<close>.
\<close>

fun strip_trailing :: "byte list \<Rightarrow> nat \<Rightarrow> nat" where
  "strip_trailing buf 0 = 0"
| "strip_trailing buf (Suc k) = (if buf ! k = 0 then strip_trailing buf k else Suc k)"

text \<open>
  \<^verbatim>\<open>xor_files\<close> from the opened streams on: the bytes written to standard output by a
  run that returns, or the error of the \<^verbatim>\<open>die\<close> that ended it.
\<close>

definition xor_files ::
  "env \<Rightarrow> nat \<Rightarrow> bool \<Rightarrow> (nat \<Rightarrow> byte) \<Rightarrow> (nat \<Rightarrow> byte) \<Rightarrow> stream \<Rightarrow> stream \<Rightarrow> error + byte list" where
  "xor_files e n preserve_zeros buf1 buf2 s1 s2 =
     (case xor_loop e n \<lparr>stream1 = s1, stream2 = s2, chunk1 = buf1, chunk2 = buf2, all_data = []\<rparr> of
        Inl err \<Rightarrow> Inl err
      | Inr data \<Rightarrow>
          let total_size = length data;
              output_size = (if \<not> preserve_zeros \<and> total_size > 0
                             then strip_trailing data total_size else total_size)
          in if output_size > 0
             then (let written = fwrite_count e (take output_size data)
                   in if written \<noteq> output_size then Inl WriteError
                      else Inr (take output_size data))
             else Inr [])"

text \<open>The exit status of the process: \<^verbatim>\<open>main\<close> returns \<^verbatim>\<open>EXIT_SUCCESS\<close> after \<^verbatim>\<open>xor_files\<close>.\<close>

definition exit_status :: "error + byte list \<Rightarrow> nat" where
  "exit_status r = (case r of Inl err \<Rightarrow> die_code err | Inr out \<Rightarrow> EXIT_SUCCESS)"

subsection \<open>Runs without failures, and concrete parameters for examples\<close>

text \<open>Every allocation of the run succeeds.\<close>

definition no_alloc_failure :: "env \<Rightarrow> bool" where
  "no_alloc_failure e = (\<forall>t n. malloc_ok e t n \<and> realloc_ok e t n)"

text \<open>The sink takes every byte it is given.\<close>

definition no_write_failure :: "env \<Rightarrow> bool" where
  "no_write_failure e = (\<forall>bs. fwrite_count e bs = length bs)"

definition ideal_env :: env where
  "ideal_env = \<lparr>malloc_ok = (\<lambda>t n. True), realloc_ok = (\<lambda>t n. True), fwrite_count = length\<rparr>"

text \<open>A sink that takes nothing: every \<^verbatim>\<open>fwrite\<close> reports 0 bytes written.\<close>

definition full_sink_env :: env where
  "full_sink_env = \<lparr>malloc_ok = (\<lambda>t n. True), realloc_ok = (\<lambda>t n. True), fwrite_count = (\<lambda>bs. 0)\<rparr>"

text \<open>Some contents for the chunk arrays before the first read.\<close>

definition stale_chunk :: "nat \<Rightarrow> byte" where
  "stale_chunk i = 0xAA"

subsection \<open>The specification's reading of the result\<close>

text \<open>
  These three definitions follow the words of the specification, not the code: the byte a
  source contributes at a position (\<open>0x00\<close> past its end), the unblocked byte-wise XOR
  of two sequences whose length is the larger of the two lengths, and the removal of the
  bytes \<open>0x00\<close> at the end of a sequence. The code is compared with them below.
\<close>

definition spec_byte :: "byte list \<Rightarrow> nat \<Rightarrow> byte" where
  "spec_byte bs i = (if i < length bs then bs ! i else 0)"

definition spec_xor :: "byte list \<Rightarrow> byte list \<Rightarrow> byte list" where
  "spec_xor a b = map (\<lambda>i. spec_byte a i XOR spec_byte b i) [0..<max (length a) (length b)]"

definition spec_trim :: "byte list \<Rightarrow> byte list" where
  "spec_trim bs = rev (dropWhile (\<lambda>b. b = 0) (rev bs))"

section \<open>Properties\<close>

subsection \<open>The zero-padded XOR, split at a chunk boundary\<close>

lemma spec_byte_take: "i < n \<Longrightarrow> spec_byte (take n bs) i = spec_byte bs i"
  by (simp add: spec_byte_def)

lemma spec_byte_drop: "spec_byte (drop n bs) i = spec_byte bs (n + i)"
  by (auto simp: spec_byte_def)

lemma spec_xor_length: "length (spec_xor a b) = max (length a) (length b)"
  by (simp add: spec_xor_def)

lemma spec_xor_nth: "i < max (length a) (length b) \<Longrightarrow> spec_xor a b ! i = spec_byte a i XOR spec_byte b i"
  by (simp add: spec_xor_def)

lemma spec_xor_split:
  "spec_xor a b = spec_xor (take n a) (take n b) @ spec_xor (drop n a) (drop n b)"
proof (rule nth_equalityI)
  show "length (spec_xor a b) = length (spec_xor (take n a) (take n b) @ spec_xor (drop n a) (drop n b))"
    by (simp add: spec_xor_length)
next
  fix i assume "i < length (spec_xor a b)"
  then have i: "i < max (length a) (length b)" by (simp add: spec_xor_length)
  let ?m = "max (min (length a) n) (min (length b) n)"
  show "spec_xor a b ! i = (spec_xor (take n a) (take n b) @ spec_xor (drop n a) (drop n b)) ! i"
  proof (cases "i < ?m")
    case True
    then have "i < n" by arith
    with True i show ?thesis
      by (simp add: nth_append spec_xor_length spec_xor_nth spec_byte_take)
  next
    case False
    with i have m: "?m = n" and ge: "n \<le> i" by arith+
    from i ge have "i - n < max (length a - n) (length b - n)" by arith
    with False i m ge show ?thesis
      by (simp add: nth_append spec_xor_length spec_xor_nth spec_byte_drop)
  qed
qed

lemma spec_xor_commute: "spec_xor a b = spec_xor b a"
  by (simp add: spec_xor_def max.commute xor.commute)

lemma spec_xor_recover:
  "spec_xor (spec_xor a b) b = a @ replicate (length b - length a) 0"
proof (rule nth_equalityI)
  show "length (spec_xor (spec_xor a b) b) = length (a @ replicate (length b - length a) 0)"
    by (simp add: spec_xor_length)
next
  fix i assume "i < length (spec_xor (spec_xor a b) b)"
  then have i: "i < max (length a) (length b)"
    by (simp add: spec_xor_length)
  then have "spec_xor (spec_xor a b) b ! i = (spec_byte a i XOR spec_byte b i) XOR spec_byte b i"
    by (simp add: spec_xor_nth spec_xor_length) (simp add: spec_byte_def spec_xor_nth spec_xor_length)
  also have "\<dots> = spec_byte a i"
    by (simp add: xor.assoc)
  also have "\<dots> = (a @ replicate (length b - length a) 0) ! i"
    using i by (auto simp: spec_byte_def nth_append)
  finally show "spec_xor (spec_xor a b) b ! i = (a @ replicate (length b - length a) 0) ! i" .
qed

lemma spec_xor_Nil: "spec_xor [] b = b"
  by (rule nth_equalityI) (simp_all add: spec_xor_def spec_byte_def)

subsection \<open>One iteration and the whole loop\<close>

lemma fread_count: "fst (fread chunk n s) = min (length (rest s)) n"
  by (simp add: fread_def Let_def)

lemma fread_none: "fst (fread chunk n s) = 0 \<longleftrightarrow> n = 0 \<or> rest s = []"
  by (auto simp: fread_count min_def)

lemma xor_step_Break:
  "xor_step e n st = Break \<longleftrightarrow>
     fst (fread (chunk1 st) n (stream1 st)) = 0 \<and> fst (fread (chunk2 st) n (stream2 st)) = 0"
  by (simp add: xor_step_def Let_def split: prod.splits)

lemma padded_chunk:
  assumes "fread chunk n s = (r, c, s')" and "i < m"
  shows "(if r < m then memset c r 0 (m - r) else c) i = spec_byte (take n (rest s)) i"
  using assms by (auto simp: fread_def Let_def memset_def spec_byte_def)

lemma xor_step_Continue:
  assumes "xor_step e n st = Continue st'"
  shows "rest (stream1 st') = drop n (rest (stream1 st))"
    and "rest (stream2 st') = drop n (rest (stream2 st))"
    and "all_data st' = all_data st @ spec_xor (take n (rest (stream1 st))) (take n (rest (stream2 st)))"
proof -
  obtain r1 c1 s1 where f1: "fread (chunk1 st) n (stream1 st) = (r1, c1, s1)"
    by (cases "fread (chunk1 st) n (stream1 st)") auto
  obtain r2 c2 s2 where f2: "fread (chunk2 st) n (stream2 st) = (r2, c2, s2)"
    by (cases "fread (chunk2 st) n (stream2 st)") auto
  define m where "m = (if r1 > r2 then r1 else r2)"
  from f1 have s1: "rest s1 = drop n (rest (stream1 st))"
    and r1: "r1 = length (take n (rest (stream1 st)))"
    by (auto simp: fread_def Let_def)
  from f2 have s2: "rest s2 = drop n (rest (stream2 st))"
    and r2: "r2 = length (take n (rest (stream2 st)))"
    by (auto simp: fread_def Let_def)
  from assms have st': "st' = \<lparr>stream1 = s1, stream2 = s2,
      chunk1 = (if r1 < m then memset c1 r1 0 (m - r1) else c1),
      chunk2 = (if r2 < m then memset c2 r2 0 (m - r2) else c2),
      all_data = all_data st @
        map (\<lambda>i. (if r1 < m then memset c1 r1 0 (m - r1) else c1) i XOR
                  (if r2 < m then memset c2 r2 0 (m - r2) else c2) i) [0..<m]\<rparr>"
    unfolding xor_step_def f1 f2 m_def Let_def by (simp split: if_splits)
  have "m = max r1 r2"
    by (auto simp: m_def)
  then have m: "m = max (length (take n (rest (stream1 st)))) (length (take n (rest (stream2 st))))"
    unfolding r1 r2 .
  have "map (\<lambda>i. (if r1 < m then memset c1 r1 0 (m - r1) else c1) i XOR
                  (if r2 < m then memset c2 r2 0 (m - r2) else c2) i) [0..<m]
      = spec_xor (take n (rest (stream1 st))) (take n (rest (stream2 st)))"
    unfolding spec_xor_def m [symmetric]
    by (rule map_cong [OF refl]) (simp add: padded_chunk [OF f1] padded_chunk [OF f2])
  with st' show "all_data st' = all_data st @ spec_xor (take n (rest (stream1 st))) (take n (rest (stream2 st)))"
    by simp
  from st' s1 show "rest (stream1 st') = drop n (rest (stream1 st))" by simp
  from st' s2 show "rest (stream2 st') = drop n (rest (stream2 st))" by simp
qed

lemma xor_step_Abort:
  assumes "no_alloc_failure e"
  shows "xor_step e n st \<noteq> Abort err"
  using assms
  by (auto simp: xor_step_def fread_def Let_def no_alloc_failure_def split: if_splits)

lemma xor_loop_padded:
  assumes "no_alloc_failure e" and "0 < n"
  shows "xor_loop e n st = Inr (all_data st @ spec_xor (rest (stream1 st)) (rest (stream2 st)))"
  using assms
proof (induction e n st rule: xor_loop.induct)
  case (1 e n st)
  show ?case
  proof (cases "xor_step e n st")
    case Break
    then have "rest (stream1 st) = []" and "rest (stream2 st) = []"
      using \<open>0 < n\<close> by (auto simp: xor_step_Break fread_none)
    with Break show ?thesis
      by (simp add: xor_loop.simps [of e n st] spec_xor_def)
  next
    case (Abort err)
    with "1.prems" show ?thesis
      by (simp add: xor_step_Abort)
  next
    case (Continue st')
    have "xor_loop e n st = xor_loop e n st'"
      using Continue by (simp add: xor_loop.simps [of e n st])
    also have "\<dots> = Inr (all_data st' @ spec_xor (rest (stream1 st')) (rest (stream2 st')))"
      using "1.IH" [OF Continue] "1.prems" by simp
    also have "\<dots> = Inr (all_data st @ spec_xor (rest (stream1 st)) (rest (stream2 st)))"
      using xor_step_Continue [OF Continue]
        spec_xor_split [of "rest (stream1 st)" "rest (stream2 st)" n]
      by simp
    finally show ?thesis .
  qed
qed

subsection \<open>Trimming\<close>

lemma strip_trailing_append: "k \<le> length bs \<Longrightarrow> strip_trailing (bs @ cs) k = strip_trailing bs k"
  by (induction k) (auto simp: nth_append)

lemma strip_trailing_le: "strip_trailing bs k \<le> k"
  by (induction k) auto

lemma strip_trailing_trim: "take (strip_trailing bs (length bs)) bs = spec_trim bs"
proof (induction bs rule: rev_induct)
  case Nil
  show ?case by (simp add: spec_trim_def)
next
  case (snoc x xs)
  then show ?case
    by (simp add: spec_trim_def strip_trailing_append strip_trailing_le)
qed

lemma spec_trim_last: "spec_trim bs = [] \<or> last (spec_trim bs) \<noteq> 0"
  using hd_dropWhile [of "\<lambda>b. b = 0" "rev bs"]
  by (auto simp: spec_trim_def last_rev)

lemma spec_trim_zeros: "set bs \<subseteq> {0} \<Longrightarrow> spec_trim bs = []"
  by (auto simp: spec_trim_def)

lemma spec_trim_decomp: "bs = spec_trim bs @ replicate (length bs - length (spec_trim bs)) 0"
proof -
  let ?P = "\<lambda>b::byte. b = 0"
  have z: "takeWhile ?P (rev bs) = replicate (length (takeWhile ?P (rev bs))) 0"
    by (rule replicate_length_same [symmetric]) (auto dest: set_takeWhileD)
  have bs: "bs = spec_trim bs @ rev (takeWhile ?P (rev bs))"
  proof -
    have "spec_trim bs @ rev (takeWhile ?P (rev bs))
        = rev (takeWhile ?P (rev bs) @ dropWhile ?P (rev bs))"
      unfolding spec_trim_def by (simp only: rev_append)
    also have "\<dots> = bs"
      by simp
    finally show ?thesis
      by simp
  qed
  have "length bs = length (spec_trim bs) + length (takeWhile ?P (rev bs))"
    by (subst bs) simp
  then have len: "length (takeWhile ?P (rev bs)) = length bs - length (spec_trim bs)"
    by simp
  have "rev (takeWhile ?P (rev bs)) = replicate (length bs - length (spec_trim bs)) 0"
    by (subst z) (simp add: len)
  with bs show ?thesis by simp
qed

lemma spec_trim_append_zeros:
  assumes "c = [] \<or> last c \<noteq> 0"
  shows "spec_trim (c @ replicate k 0) = c"
proof -
  have "dropWhile (\<lambda>b::byte. b = 0) (replicate k 0 @ rev c) = dropWhile (\<lambda>b. b = 0) (rev c)"
    by (rule dropWhile_append2) simp
  also have "\<dots> = rev c"
    using assms by (cases c rule: rev_cases) auto
  finally show ?thesis
    by (simp add: spec_trim_def)
qed

subsection \<open>The result of a run\<close>

lemma xor_files_general:
  assumes "no_alloc_failure e" and "0 < n"
  shows "xor_files e n preserve_zeros buf1 buf2 s1 s2 =
         (let out = (if preserve_zeros then spec_xor (rest s1) (rest s2)
                     else spec_trim (spec_xor (rest s1) (rest s2)))
          in if out = [] then Inr []
             else if fwrite_count e out \<noteq> length out then Inl WriteError else Inr out)"
proof -
  let ?d = "spec_xor (rest s1) (rest s2)"
  have loop: "xor_loop e n \<lparr>stream1 = s1, stream2 = s2, chunk1 = buf1, chunk2 = buf2, all_data = []\<rparr> = Inr ?d"
    using xor_loop_padded [OF assms] by simp
  show ?thesis
  proof (cases preserve_zeros)
    case True
    then show ?thesis by (simp add: xor_files_def loop Let_def)
  next
    case False
    have t: "take (strip_trailing ?d (length ?d)) ?d = spec_trim ?d"
      by (rule strip_trailing_trim)
    have le: "strip_trailing ?d (length ?d) \<le> length ?d"
      by (rule strip_trailing_le)
    from t le have len: "length (spec_trim ?d) = strip_trailing ?d (length ?d)"
      by (metis length_take min.absorb2)
    show ?thesis
    proof (cases "?d = []")
      case True
      with False show ?thesis
        by (simp add: xor_files_def loop Let_def spec_trim_def)
    next
      case d: False
      with False show ?thesis
        unfolding xor_files_def loop Let_def
        by (simp add: t) (simp add: len [symmetric])
    qed
  qed
qed


lemma xor_files_result:
  assumes "no_alloc_failure e" and "no_write_failure e" and "0 < n"
  shows "xor_files e n preserve_zeros buf1 buf2 s1 s2 =
         Inr (if preserve_zeros then spec_xor (rest s1) (rest s2)
              else spec_trim (spec_xor (rest s1) (rest s2)))"
  using xor_files_general [OF assms(1) assms(3)] assms(2)
  by (simp add: Let_def no_write_failure_def)

section \<open>The claims\<close>

text \<open>
  Claim C1. When no allocation fails and the block size is positive, the read loop returns
  a buffer whose length is the larger of the two input lengths, and the byte at every
  position \<open>i\<close> of it is the XOR of the two input bytes at \<open>i\<close>, an input that
  has no byte at \<open>i\<close> contributing \<open>0x00\<close>. With the flag \<^verbatim>\<open>preserve_zeros\<close> set
  and a sink that takes every byte, this buffer is what \<^verbatim>\<open>xor_files\<close> writes.
\<close>

theorem C1_untrimmed_output:
  assumes "no_alloc_failure e" and "0 < n"
  shows "\<exists>out. xor_loop e n \<lparr>stream1 = open_input_stream a, stream2 = open_input_stream b,
                              chunk1 = buf1, chunk2 = buf2, all_data = []\<rparr> = Inr out
           \<and> length out = max (length a) (length b)
           \<and> (\<forall>i<length out. out ! i = (if i < length a then a ! i else 0)
                                         XOR (if i < length b then b ! i else 0))
           \<and> (no_write_failure e \<longrightarrow>
                xor_files e n True buf1 buf2 (open_input_stream a) (open_input_stream b) = Inr out)"
proof -
  have "xor_loop e n \<lparr>stream1 = open_input_stream a, stream2 = open_input_stream b,
                      chunk1 = buf1, chunk2 = buf2, all_data = []\<rparr> = Inr (spec_xor a b)"
    using xor_loop_padded [OF assms] by (simp add: open_input_stream_def)
  moreover have "length (spec_xor a b) = max (length a) (length b)"
    by (rule spec_xor_length)
  moreover have "\<forall>i<length (spec_xor a b). spec_xor a b ! i =
      (if i < length a then a ! i else 0) XOR (if i < length b then b ! i else 0)"
    by (simp add: spec_xor_def spec_byte_def)
  moreover have "no_write_failure e \<longrightarrow>
      xor_files e n True buf1 buf2 (open_input_stream a) (open_input_stream b) = Inr (spec_xor a b)"
    using xor_files_result [OF assms(1) _ assms(2)] by (simp add: open_input_stream_def)
  ultimately show ?thesis
    by blast
qed

theorem C1_untrimmed_output_witness:
  "no_alloc_failure ideal_env \<and> 0 < CHUNK_SIZE \<and>
   (\<exists>out. xor_loop ideal_env CHUNK_SIZE
              \<lparr>stream1 = open_input_stream [0x41, 0x42], stream2 = open_input_stream [0x41],
               chunk1 = stale_chunk, chunk2 = stale_chunk, all_data = []\<rparr> = Inr out
          \<and> length out = 2 \<and> out ! 0 = 0x00 \<and> out ! 1 = 0x42)"
proof -
  have a: "no_alloc_failure ideal_env"
    by (simp add: no_alloc_failure_def ideal_env_def)
  have n: "0 < CHUNK_SIZE"
    by (simp add: CHUNK_SIZE_def)
  from C1_untrimmed_output [OF a n, of "[0x41, 0x42]" "[0x41]" stale_chunk stale_chunk]
  obtain out where
    run: "xor_loop ideal_env CHUNK_SIZE
              \<lparr>stream1 = open_input_stream [0x41, 0x42], stream2 = open_input_stream [0x41],
               chunk1 = stale_chunk, chunk2 = stale_chunk, all_data = []\<rparr> = Inr out"
    and len: "length out = max (length [0x41, 0x42 :: byte]) (length [0x41 :: byte])"
    and nth: "\<forall>i<length out. out ! i = (if i < length [0x41, 0x42 :: byte] then [0x41, 0x42] ! i else 0)
                                         XOR (if i < length [0x41 :: byte] then [0x41] ! i else 0)"
    by blast
  from len have l2: "length out = 2"
    by simp
  from nth l2 have "out ! 0 = 0x00" and "out ! 1 = 0x42"
    by simp_all
  with a n run l2 show ?thesis
    by blast
qed

text \<open>
  Claim C6. When the first input is shorter than the second, the output with
  \<^verbatim>\<open>preserve_zeros\<close> set is as long as the second input, and from the length of the
  first input on its bytes are those of the second input.
\<close>

theorem C6_padding:
  assumes "no_alloc_failure e" and "no_write_failure e" and "0 < n" and "length a < length b"
  shows "\<exists>r. xor_files e n True buf1 buf2 (open_input_stream a) (open_input_stream b) = Inr r
           \<and> length r = length b
           \<and> (\<forall>i. length a \<le> i \<and> i < length b \<longrightarrow> r ! i = b ! i)"
proof -
  have "xor_files e n True buf1 buf2 (open_input_stream a) (open_input_stream b) = Inr (spec_xor a b)"
    using xor_files_result [OF assms(1-3)] by (simp add: open_input_stream_def)
  moreover have "length (spec_xor a b) = length b"
    using assms(4) by (simp add: spec_xor_length)
  moreover have "\<forall>i. length a \<le> i \<and> i < length b \<longrightarrow> spec_xor a b ! i = b ! i"
    by (simp add: spec_xor_def spec_byte_def)
  ultimately show ?thesis
    by blast
qed

theorem C6_padding_witness:
  "no_alloc_failure ideal_env \<and> no_write_failure ideal_env \<and> 0 < CHUNK_SIZE
   \<and> length [0x41 :: byte] < length [0x10, 0x20, 0x30 :: byte]
   \<and> (\<exists>r. xor_files ideal_env CHUNK_SIZE True stale_chunk stale_chunk
             (open_input_stream [0x41]) (open_input_stream [0x10, 0x20, 0x30]) = Inr r
          \<and> length r = 3 \<and> r ! 1 = 0x20 \<and> r ! 2 = 0x30)"
proof -
  have a: "no_alloc_failure ideal_env"
    by (simp add: no_alloc_failure_def ideal_env_def)
  have w: "no_write_failure ideal_env"
    by (simp add: no_write_failure_def ideal_env_def)
  have n: "0 < CHUNK_SIZE"
    by (simp add: CHUNK_SIZE_def)
  have l: "length [0x41 :: byte] < length [0x10, 0x20, 0x30 :: byte]"
    by simp
  from C6_padding [OF a w n l, of stale_chunk stale_chunk]
  obtain r where
    run: "xor_files ideal_env CHUNK_SIZE True stale_chunk stale_chunk
             (open_input_stream [0x41]) (open_input_stream [0x10, 0x20, 0x30]) = Inr r"
    and len: "length r = length [0x10, 0x20, 0x30 :: byte]"
    and nth: "\<forall>i. length [0x41 :: byte] \<le> i \<and> i < length [0x10, 0x20, 0x30 :: byte]
                \<longrightarrow> r ! i = [0x10, 0x20, 0x30] ! i"
    by blast
  from nth have "r ! 1 = 0x20" and "r ! 2 = 0x30"
    by simp_all
  with a w n l run len show ?thesis
    by simp
qed

text \<open>
  Claim C8. For any two positive block sizes the runs write the same bytes, whatever the
  chunk arrays held before: the unblocked zero-padded XOR of the two inputs, trimmed when
  \<^verbatim>\<open>preserve_zeros\<close> is not set.
\<close>

theorem C8_block_size_irrelevant:
  assumes "no_alloc_failure e" and "no_write_failure e" and "0 < n"
    and "no_alloc_failure e'" and "no_write_failure e'" and "0 < m"
  shows "xor_files e n preserve_zeros buf1 buf2 (open_input_stream a) (open_input_stream b)
         = xor_files e' m preserve_zeros buf1' buf2' (open_input_stream a) (open_input_stream b)
       \<and> xor_files e n preserve_zeros buf1 buf2 (open_input_stream a) (open_input_stream b)
         = Inr (if preserve_zeros then spec_xor a b else spec_trim (spec_xor a b))"
  using xor_files_result [OF assms(1-3)] xor_files_result [OF assms(4-6)]
  by (simp add: open_input_stream_def)

theorem C8_block_size_irrelevant_witness:
  "no_alloc_failure ideal_env \<and> no_write_failure ideal_env \<and> 0 < CHUNK_SIZE \<and> (0::nat) < 1
   \<and> xor_files ideal_env CHUNK_SIZE False stale_chunk stale_chunk
        (open_input_stream [0x41, 0x42, 0x43]) (open_input_stream [0x01, 0x42, 0x43])
      = xor_files ideal_env 1 False stale_chunk stale_chunk
        (open_input_stream [0x41, 0x42, 0x43]) (open_input_stream [0x01, 0x42, 0x43])
   \<and> xor_files ideal_env 1 False stale_chunk stale_chunk
        (open_input_stream [0x41, 0x42, 0x43]) (open_input_stream [0x01, 0x42, 0x43]) = Inr [0x40]"
proof -
  have a: "no_alloc_failure ideal_env"
    by (simp add: no_alloc_failure_def ideal_env_def)
  have w: "no_write_failure ideal_env"
    by (simp add: no_write_failure_def ideal_env_def)
  have n: "0 < CHUNK_SIZE"
    by (simp add: CHUNK_SIZE_def)
  have m: "(0::nat) < 1"
    by simp
  have run: "xor_files ideal_env 1 False stale_chunk stale_chunk
        (open_input_stream [0x41, 0x42, 0x43]) (open_input_stream [0x01, 0x42, 0x43]) = Inr [0x40]"
    by (simp add: xor_files_def xor_loop.simps xor_step_def fread_def memset_def Let_def
        ideal_env_def open_input_stream_def)
  from C8_block_size_irrelevant [OF a w n a w m, of False stale_chunk stale_chunk
      "[0x41, 0x42, 0x43]" "[0x01, 0x42, 0x43]" stale_chunk stale_chunk]
  have "xor_files ideal_env CHUNK_SIZE False stale_chunk stale_chunk
        (open_input_stream [0x41, 0x42, 0x43]) (open_input_stream [0x01, 0x42, 0x43])
      = xor_files ideal_env 1 False stale_chunk stale_chunk
        (open_input_stream [0x41, 0x42, 0x43]) (open_input_stream [0x01, 0x42, 0x43])"
    by blast
  with a w n m run show ?thesis
    by blast
qed

text \<open>
  Claim C10. Exchanging the two inputs does not change the output, for either value of
  \<^verbatim>\<open>preserve_zeros\<close>.
\<close>

theorem C10_commutative:
  assumes "no_alloc_failure e" and "no_write_failure e" and "0 < n"
  shows "xor_files e n preserve_zeros buf1 buf2 (open_input_stream a) (open_input_stream b)
         = xor_files e n preserve_zeros buf1' buf2' (open_input_stream b) (open_input_stream a)"
  using xor_files_result [OF assms] spec_xor_commute [of a b]
  by (simp add: open_input_stream_def)

theorem C10_commutative_witness:
  "no_alloc_failure ideal_env \<and> no_write_failure ideal_env \<and> 0 < CHUNK_SIZE
   \<and> xor_files ideal_env CHUNK_SIZE False stale_chunk stale_chunk
        (open_input_stream [0x41, 0x42]) (open_input_stream [0x03])
      = xor_files ideal_env CHUNK_SIZE False stale_chunk stale_chunk
        (open_input_stream [0x03]) (open_input_stream [0x41, 0x42])"
proof -
  have a: "no_alloc_failure ideal_env"
    by (simp add: no_alloc_failure_def ideal_env_def)
  have w: "no_write_failure ideal_env"
    by (simp add: no_write_failure_def ideal_env_def)
  have n: "0 < CHUNK_SIZE"
    by (simp add: CHUNK_SIZE_def)
  from a w n C10_commutative [OF a w n, of False stale_chunk stale_chunk "[0x41, 0x42]" "[0x03]"
      stale_chunk stale_chunk]
  show ?thesis
    by blast
qed

text \<open>
  Claim C2 says that with \<^verbatim>\<open>preserve_zeros\<close> set, XORing the result \<open>R\<close> of
  \<open>A\<close> and \<open>B\<close> with \<open>B\<close> gives back \<open>A\<close> exactly, for inputs of any lengths.
  For \<open>A\<close> of one byte and \<open>B\<close> of two bytes it gives back \<open>A\<close> followed by a zero
  byte: the result of a run is as long as its longer input.
\<close>

theorem C2_counterexample:
  "xor_files ideal_env CHUNK_SIZE True stale_chunk stale_chunk
     (open_input_stream [0x41]) (open_input_stream [0x41, 0x42]) = Inr [0x00, 0x42]
   \<and> xor_files ideal_env CHUNK_SIZE True stale_chunk stale_chunk
     (open_input_stream [0x00, 0x42]) (open_input_stream [0x41, 0x42]) = Inr [0x41, 0x00]
   \<and> xor_files ideal_env CHUNK_SIZE True stale_chunk stale_chunk
     (open_input_stream [0x00, 0x42]) (open_input_stream [0x41, 0x42]) \<noteq> Inr [0x41]"
  by (simp add: xor_files_def xor_loop.simps xor_step_def fread_def memset_def Let_def
      ideal_env_def CHUNK_SIZE_def open_input_stream_def stale_chunk_def)

text \<open>
  Claim C2, amended. With \<^verbatim>\<open>preserve_zeros\<close> set and \<open>R\<close> the result of \<open>A\<close> and
  \<open>B\<close>: the result of \<open>R\<close> and \<open>B\<close> is \<open>A\<close> followed by as many zero bytes as
  \<open>B\<close> is longer than \<open>A\<close>, and the result of \<open>R\<close> and \<open>A\<close> is \<open>B\<close> followed
  by as many zero bytes as \<open>A\<close> is longer than \<open>B\<close>. Both inputs come back exactly
  when they have the same length.
\<close>

theorem C2_recover_padded:
  assumes "no_alloc_failure e" and "no_write_failure e" and "0 < n"
  shows "\<exists>r. xor_files e n True buf1 buf2 (open_input_stream a) (open_input_stream b) = Inr r
           \<and> xor_files e n True buf1 buf2 (open_input_stream r) (open_input_stream b)
               = Inr (a @ replicate (length b - length a) 0)
           \<and> xor_files e n True buf1 buf2 (open_input_stream r) (open_input_stream a)
               = Inr (b @ replicate (length a - length b) 0)
           \<and> (length a = length b \<longrightarrow>
                xor_files e n True buf1 buf2 (open_input_stream r) (open_input_stream b) = Inr a
              \<and> xor_files e n True buf1 buf2 (open_input_stream r) (open_input_stream a) = Inr b)"
proof -
  have run: "\<And>x y. xor_files e n True buf1 buf2 (open_input_stream x) (open_input_stream y)
      = Inr (spec_xor x y)"
    using xor_files_result [OF assms] by (simp add: open_input_stream_def)
  have ra: "spec_xor (spec_xor a b) b = a @ replicate (length b - length a) 0"
    by (rule spec_xor_recover)
  have rb: "spec_xor (spec_xor a b) a = b @ replicate (length a - length b) 0"
    using spec_xor_recover [of b a] by (simp add: spec_xor_commute [of a b])
  show ?thesis
    by (rule exI [of _ "spec_xor a b"]) (simp add: run ra rb)
qed

theorem C2_recover_padded_witness:
  "no_alloc_failure ideal_env \<and> no_write_failure ideal_env \<and> 0 < CHUNK_SIZE
   \<and> (\<exists>r. xor_files ideal_env CHUNK_SIZE True stale_chunk stale_chunk
             (open_input_stream [0x41]) (open_input_stream [0x41, 0x42]) = Inr r
          \<and> xor_files ideal_env CHUNK_SIZE True stale_chunk stale_chunk
             (open_input_stream r) (open_input_stream [0x41, 0x42]) = Inr [0x41, 0x00]
          \<and> xor_files ideal_env CHUNK_SIZE True stale_chunk stale_chunk
             (open_input_stream r) (open_input_stream [0x41]) = Inr [0x41, 0x42])"
proof -
  have a: "no_alloc_failure ideal_env"
    by (simp add: no_alloc_failure_def ideal_env_def)
  have w: "no_write_failure ideal_env"
    by (simp add: no_write_failure_def ideal_env_def)
  have n: "0 < CHUNK_SIZE"
    by (simp add: CHUNK_SIZE_def)
  from C2_recover_padded [OF a w n, of stale_chunk stale_chunk "[0x41]" "[0x41, 0x42]"]
  obtain r where
    "xor_files ideal_env CHUNK_SIZE True stale_chunk stale_chunk
       (open_input_stream [0x41]) (open_input_stream [0x41, 0x42]) = Inr r"
    and "xor_files ideal_env CHUNK_SIZE True stale_chunk stale_chunk
       (open_input_stream r) (open_input_stream [0x41, 0x42])
       = Inr ([0x41] @ replicate (length [0x41, 0x42 :: byte] - length [0x41 :: byte]) 0)"
    and "xor_files ideal_env CHUNK_SIZE True stale_chunk stale_chunk
       (open_input_stream r) (open_input_stream [0x41])
       = Inr ([0x41, 0x42] @ replicate (length [0x41 :: byte] - length [0x41, 0x42 :: byte]) 0)"
    by blast
  with a w n show ?thesis
    by auto
qed

text \<open>
  Claim C3. The output without \<^verbatim>\<open>preserve_zeros\<close> is the output with it, cut after
  its last non-zero byte: what is cut off consists of zero bytes only, what remains is empty
  or ends in a non-zero byte, and nothing remains of a result whose bytes are all zero.
\<close>

theorem C3_trim:
  assumes "no_alloc_failure e" and "no_write_failure e" and "0 < n"
  shows "\<exists>r out. xor_files e n True buf1 buf2 (open_input_stream a) (open_input_stream b) = Inr r
           \<and> xor_files e n False buf1 buf2 (open_input_stream a) (open_input_stream b) = Inr out
           \<and> out = spec_trim r
           \<and> r = out @ replicate (length r - length out) 0
           \<and> (out = [] \<or> last out \<noteq> 0)
           \<and> (set r \<subseteq> {0} \<longrightarrow> out = [])"
proof -
  let ?r = "spec_xor a b"
  have "xor_files e n True buf1 buf2 (open_input_stream a) (open_input_stream b) = Inr ?r"
    using xor_files_result [OF assms] by (simp add: open_input_stream_def)
  moreover have "xor_files e n False buf1 buf2 (open_input_stream a) (open_input_stream b)
      = Inr (spec_trim ?r)"
    using xor_files_result [OF assms] by (simp add: open_input_stream_def)
  moreover have "?r = spec_trim ?r @ replicate (length ?r - length (spec_trim ?r)) 0"
    by (rule spec_trim_decomp)
  moreover have "spec_trim ?r = [] \<or> last (spec_trim ?r) \<noteq> 0"
    by (rule spec_trim_last)
  moreover have "set ?r \<subseteq> {0} \<longrightarrow> spec_trim ?r = []"
    by (simp add: spec_trim_zeros)
  ultimately show ?thesis
    by blast
qed

theorem C3_trim_witness:
  "no_alloc_failure ideal_env \<and> no_write_failure ideal_env \<and> 0 < CHUNK_SIZE
   \<and> (\<exists>r out. xor_files ideal_env CHUNK_SIZE True stale_chunk stale_chunk
             (open_input_stream [0x41, 0x42, 0x43]) (open_input_stream [0x41, 0x02, 0x43]) = Inr r
          \<and> xor_files ideal_env CHUNK_SIZE False stale_chunk stale_chunk
             (open_input_stream [0x41, 0x42, 0x43]) (open_input_stream [0x41, 0x02, 0x43]) = Inr out
          \<and> r = [0x00, 0x40, 0x00] \<and> out = [0x00, 0x40])"
proof -
  have a: "no_alloc_failure ideal_env"
    by (simp add: no_alloc_failure_def ideal_env_def)
  have w: "no_write_failure ideal_env"
    by (simp add: no_write_failure_def ideal_env_def)
  have n: "0 < CHUNK_SIZE"
    by (simp add: CHUNK_SIZE_def)
  have run: "xor_files ideal_env CHUNK_SIZE True stale_chunk stale_chunk
      (open_input_stream [0x41, 0x42, 0x43]) (open_input_stream [0x41, 0x02, 0x43])
      = Inr [0x00, 0x40, 0x00]"
    by (simp add: xor_files_def xor_loop.simps xor_step_def fread_def memset_def Let_def
        ideal_env_def CHUNK_SIZE_def open_input_stream_def)
  from C3_trim [OF a w n, of stale_chunk stale_chunk "[0x41, 0x42, 0x43]" "[0x41, 0x02, 0x43]"]
  obtain r out where
    r: "xor_files ideal_env CHUNK_SIZE True stale_chunk stale_chunk
       (open_input_stream [0x41, 0x42, 0x43]) (open_input_stream [0x41, 0x02, 0x43]) = Inr r"
    and out: "xor_files ideal_env CHUNK_SIZE False stale_chunk stale_chunk
       (open_input_stream [0x41, 0x42, 0x43]) (open_input_stream [0x41, 0x02, 0x43]) = Inr out"
    and trim: "out = spec_trim r"
    by blast
  from r run have r': "r = [0x00, 0x40, 0x00]"
    by simp
  with trim have "out = [0x00, 0x40]"
    by (simp add: spec_trim_def)
  with a w n r out r' show ?thesis
    by blast
qed

text \<open>
  Claim C4 asks that a read error end the run with an I/O error and a non-zero exit status.
  \<^verbatim>\<open>xor_files\<close> never asks the stream whether a short read was an error. Here the
  second source fails on its first read (the error indicator is set): the run writes the
  first source and exits with status 0. A source that fails after one byte gives a result
  computed from that byte alone.
\<close>

theorem C4_read_error_ignored:
  "error_indicator (snd (snd (fread stale_chunk CHUNK_SIZE
       \<lparr>rest = [], failing = True, error_indicator = False\<rparr>)))
   \<and> xor_files ideal_env CHUNK_SIZE False stale_chunk stale_chunk
       (open_input_stream [0x41, 0x42]) \<lparr>rest = [], failing = True, error_indicator = False\<rparr>
     = Inr [0x41, 0x42]
   \<and> exit_status (xor_files ideal_env CHUNK_SIZE False stale_chunk stale_chunk
       (open_input_stream [0x41, 0x42]) \<lparr>rest = [], failing = True, error_indicator = False\<rparr>)
     = EXIT_SUCCESS
   \<and> xor_files ideal_env CHUNK_SIZE False stale_chunk stale_chunk
       \<lparr>rest = [0x10], failing = True, error_indicator = False\<rparr>
       (open_input_stream [0x01, 0x02, 0x03])
     = Inr [0x11, 0x02, 0x03]"
  by (simp add: xor_files_def xor_loop.simps xor_step_def fread_def memset_def Let_def
      ideal_env_def CHUNK_SIZE_def open_input_stream_def exit_status_def)

text \<open>
  Claim C5. An iteration leaves the loop exactly when both calls of \<^verbatim>\<open>fread\<close> return
  0, and the loop then returns the buffer as it stands. When one call returns 0 and the
  other at least one byte (and no allocation fails), the iteration appends as many bytes as
  the other call read and the loop goes on from the new state.
\<close>

theorem C5_loop_exit:
  "(xor_step e n st = Break \<longleftrightarrow>
      fst (fread (chunk1 st) n (stream1 st)) = 0 \<and> fst (fread (chunk2 st) n (stream2 st)) = 0)
   \<and> (xor_step e n st = Break \<longrightarrow> xor_loop e n st = Inr (all_data st))
   \<and> (no_alloc_failure e
        \<and> (fst (fread (chunk1 st) n (stream1 st)) = 0 \<and> 0 < fst (fread (chunk2 st) n (stream2 st))
           \<or> 0 < fst (fread (chunk1 st) n (stream1 st)) \<and> fst (fread (chunk2 st) n (stream2 st)) = 0)
       \<longrightarrow> (\<exists>st'. xor_step e n st = Continue st' \<and> xor_loop e n st = xor_loop e n st'
                \<and> length (all_data st') = length (all_data st)
                     + max (fst (fread (chunk1 st) n (stream1 st)))
                           (fst (fread (chunk2 st) n (stream2 st)))))"
proof (intro conjI impI)
  show "xor_step e n st = Break \<longleftrightarrow>
      fst (fread (chunk1 st) n (stream1 st)) = 0 \<and> fst (fread (chunk2 st) n (stream2 st)) = 0"
    by (rule xor_step_Break)
next
  assume "xor_step e n st = Break"
  then show "xor_loop e n st = Inr (all_data st)"
    by (simp add: xor_loop.simps [of e n st])
next
  assume h: "no_alloc_failure e
        \<and> (fst (fread (chunk1 st) n (stream1 st)) = 0 \<and> 0 < fst (fread (chunk2 st) n (stream2 st))
           \<or> 0 < fst (fread (chunk1 st) n (stream1 st)) \<and> fst (fread (chunk2 st) n (stream2 st)) = 0)"
  then have "xor_step e n st \<noteq> Break"
    by (auto simp: xor_step_Break)
  moreover from h have "\<And>err. xor_step e n st \<noteq> Abort err"
    by (simp add: xor_step_Abort)
  ultimately obtain st' where c: "xor_step e n st = Continue st'"
    by (cases "xor_step e n st") auto
  have "xor_loop e n st = xor_loop e n st'"
    using c by (simp add: xor_loop.simps [of e n st])
  moreover have "length (all_data st') = length (all_data st)
      + max (fst (fread (chunk1 st) n (stream1 st))) (fst (fread (chunk2 st) n (stream2 st)))"
    using xor_step_Continue(3) [OF c] by (simp add: spec_xor_length fread_count)
  ultimately show "\<exists>st'. xor_step e n st = Continue st' \<and> xor_loop e n st = xor_loop e n st'
      \<and> length (all_data st') = length (all_data st)
           + max (fst (fread (chunk1 st) n (stream1 st))) (fst (fread (chunk2 st) n (stream2 st)))"
    using c by blast
qed

theorem C5_loop_exit_witness:
  "no_alloc_failure ideal_env
   \<and> fst (fread stale_chunk CHUNK_SIZE (open_input_stream [])) = 0
   \<and> 0 < fst (fread stale_chunk CHUNK_SIZE (open_input_stream [0x42]))
   \<and> xor_step ideal_env CHUNK_SIZE
        \<lparr>stream1 = open_input_stream [], stream2 = open_input_stream [0x42],
         chunk1 = stale_chunk, chunk2 = stale_chunk, all_data = []\<rparr> \<noteq> Break
   \<and> (\<exists>st'. xor_step ideal_env CHUNK_SIZE
        \<lparr>stream1 = open_input_stream [], stream2 = open_input_stream [0x42],
         chunk1 = stale_chunk, chunk2 = stale_chunk, all_data = []\<rparr> = Continue st'
        \<and> length (all_data st') = 1)"
proof -
  let ?st = "\<lparr>stream1 = open_input_stream [], stream2 = open_input_stream [0x42],
         chunk1 = stale_chunk, chunk2 = stale_chunk, all_data = []\<rparr>"
  have a: "no_alloc_failure ideal_env"
    by (simp add: no_alloc_failure_def ideal_env_def)
  have r1: "fst (fread stale_chunk CHUNK_SIZE (open_input_stream [])) = 0"
    by (simp add: fread_def open_input_stream_def)
  have r2: "fst (fread stale_chunk CHUNK_SIZE (open_input_stream [0x42])) = 1"
    by (simp add: fread_def open_input_stream_def CHUNK_SIZE_def)
  from C5_loop_exit [of ideal_env CHUNK_SIZE ?st] a r1 r2
  have "xor_step ideal_env CHUNK_SIZE ?st \<noteq> Break"
    and "\<exists>st'. xor_step ideal_env CHUNK_SIZE ?st = Continue st' \<and> length (all_data st') = 1"
    by auto
  with a r1 r2 show ?thesis
    by simp
qed

text \<open>
  Claim C7. Two empty sources give the empty output, whatever the flag, the environment and
  the block size. When one source is empty, the output with \<^verbatim>\<open>preserve_zeros\<close> set is
  the other source, and without it the other source trimmed: a source that is \<open>c\<close>
  followed by \<open>k\<close> zero bytes, where \<open>c\<close> is empty or ends in a non-zero byte, gives
  \<open>c\<close>.
\<close>

theorem C7_empty_sources:
  assumes "no_alloc_failure e" and "no_write_failure e" and "0 < n"
  shows "xor_files e' n' preserve_zeros buf1 buf2 (open_input_stream []) (open_input_stream []) = Inr []
       \<and> xor_files e n True buf1 buf2 (open_input_stream []) (open_input_stream b) = Inr b
       \<and> xor_files e n True buf1 buf2 (open_input_stream a) (open_input_stream []) = Inr a
       \<and> xor_files e n False buf1 buf2 (open_input_stream []) (open_input_stream b) = Inr (spec_trim b)
       \<and> xor_files e n False buf1 buf2 (open_input_stream a) (open_input_stream []) = Inr (spec_trim a)
       \<and> (c = [] \<or> last c \<noteq> 0 \<longrightarrow>
            xor_files e n False buf1 buf2 (open_input_stream []) (open_input_stream (c @ replicate k 0)) = Inr c
          \<and> xor_files e n False buf1 buf2 (open_input_stream (c @ replicate k 0)) (open_input_stream []) = Inr c)"
proof -
  have empty: "xor_files e' n' preserve_zeros buf1 buf2 (open_input_stream []) (open_input_stream []) = Inr []"
    by (simp add: xor_files_def xor_loop.simps xor_step_def fread_def Let_def open_input_stream_def)
  have run: "\<And>z x y. xor_files e n z buf1 buf2 (open_input_stream x) (open_input_stream y)
      = Inr (if z then spec_xor x y else spec_trim (spec_xor x y))"
    using xor_files_result [OF assms] by (simp add: open_input_stream_def)
  have l: "\<And>y. spec_xor [] y = y"
    by (rule spec_xor_Nil)
  have r: "\<And>x. spec_xor x [] = x"
    using spec_xor_Nil spec_xor_commute by simp
  have t: "c = [] \<or> last c \<noteq> 0 \<longrightarrow> spec_trim (c @ replicate k 0) = c"
    by (simp add: spec_trim_append_zeros)
  from empty t show ?thesis
    by (simp add: run l r)
qed

theorem C7_empty_sources_witness:
  "no_alloc_failure ideal_env \<and> no_write_failure ideal_env \<and> 0 < CHUNK_SIZE
   \<and> xor_files full_sink_env 0 False stale_chunk stale_chunk
        (open_input_stream []) (open_input_stream []) = Inr []
   \<and> xor_files ideal_env CHUNK_SIZE True stale_chunk stale_chunk
        (open_input_stream []) (open_input_stream [0x41, 0x00, 0x00]) = Inr [0x41, 0x00, 0x00]
   \<and> xor_files ideal_env CHUNK_SIZE False stale_chunk stale_chunk
        (open_input_stream []) (open_input_stream [0x41, 0x00, 0x00]) = Inr [0x41]"
proof -
  have a: "no_alloc_failure ideal_env"
    by (simp add: no_alloc_failure_def ideal_env_def)
  have w: "no_write_failure ideal_env"
    by (simp add: no_write_failure_def ideal_env_def)
  have n: "0 < CHUNK_SIZE"
    by (simp add: CHUNK_SIZE_def)
  from C7_empty_sources [OF a w n, of full_sink_env 0 False stale_chunk stale_chunk
      "[0x41, 0x00, 0x00]" "[]" "[0x41]" 2]
  have "xor_files full_sink_env 0 False stale_chunk stale_chunk
        (open_input_stream []) (open_input_stream []) = Inr []"
    and "xor_files ideal_env CHUNK_SIZE True stale_chunk stale_chunk
        (open_input_stream []) (open_input_stream [0x41, 0x00, 0x00]) = Inr [0x41, 0x00, 0x00]"
    and "xor_files ideal_env CHUNK_SIZE False stale_chunk stale_chunk
        (open_input_stream []) (open_input_stream ([0x41] @ replicate 2 0)) = Inr [0x41]"
    by simp_all
  moreover have "[0x41] @ replicate 2 0 = [0x41, 0x00, 0x00 :: byte]"
    by (simp add: numeral_2_eq_2)
  ultimately show ?thesis
    using a w n by simp
qed

text \<open>
  Claim C9. Without \<^verbatim>\<open>preserve_zeros\<close>, the bytes written by a run that returns are
  empty or end in a non-zero byte; a run returns when the sink takes every byte; and when
  the trimmed result is empty the run writes nothing and returns, whatever the sink would
  have done with a write.
\<close>

theorem C9_trimmed_output_written:
  assumes "no_alloc_failure e" and "0 < n"
  shows "(\<forall>out. xor_files e n False buf1 buf2 (open_input_stream a) (open_input_stream b) = Inr out
             \<longrightarrow> out = [] \<or> last out \<noteq> 0)
       \<and> (no_write_failure e \<longrightarrow>
            (\<exists>out. xor_files e n False buf1 buf2 (open_input_stream a) (open_input_stream b) = Inr out))
       \<and> (spec_trim (spec_xor a b) = [] \<longrightarrow>
            xor_files e n False buf1 buf2 (open_input_stream a) (open_input_stream b) = Inr [])"
proof -
  let ?out = "spec_trim (spec_xor a b)"
  have run: "xor_files e n False buf1 buf2 (open_input_stream a) (open_input_stream b)
      = (if ?out = [] then Inr []
         else if fwrite_count e ?out \<noteq> length ?out then Inl WriteError else Inr ?out)"
    using xor_files_general [OF assms, of False buf1 buf2 "open_input_stream a" "open_input_stream b"]
    by (simp add: open_input_stream_def Let_def)
  have last: "?out = [] \<or> last ?out \<noteq> 0"
    by (rule spec_trim_last)
  have "\<forall>out. xor_files e n False buf1 buf2 (open_input_stream a) (open_input_stream b) = Inr out
             \<longrightarrow> out = [] \<or> last out \<noteq> 0"
    unfolding run using last by (auto split: if_splits)
  moreover have "no_write_failure e \<longrightarrow>
      (\<exists>out. xor_files e n False buf1 buf2 (open_input_stream a) (open_input_stream b) = Inr out)"
    unfolding run by (simp add: no_write_failure_def)
  moreover have "?out = [] \<longrightarrow>
      xor_files e n False buf1 buf2 (open_input_stream a) (open_input_stream b) = Inr []"
    unfolding run by simp
  ultimately show ?thesis
    by blast
qed

theorem C9_trimmed_output_written_witness:
  "no_alloc_failure full_sink_env \<and> 0 < CHUNK_SIZE
   \<and> spec_trim (spec_xor [0x41, 0x42] [0x41, 0x42]) = []
   \<and> xor_files full_sink_env CHUNK_SIZE False stale_chunk stale_chunk
        (open_input_stream [0x41, 0x42]) (open_input_stream [0x41, 0x42]) = Inr []
   \<and> no_alloc_failure ideal_env \<and> no_write_failure ideal_env
   \<and> xor_files ideal_env CHUNK_SIZE False stale_chunk stale_chunk
        (open_input_stream [0x41, 0x42, 0x00]) (open_input_stream [0x41]) = Inr [0x00, 0x42]
   \<and> last [0x00, 0x42 :: byte] \<noteq> 0"
proof -
  have a: "no_alloc_failure full_sink_env"
    by (simp add: no_alloc_failure_def full_sink_env_def)
  have a': "no_alloc_failure ideal_env"
    by (simp add: no_alloc_failure_def ideal_env_def)
  have w': "no_write_failure ideal_env"
    by (simp add: no_write_failure_def ideal_env_def)
  have n: "0 < CHUNK_SIZE"
    by (simp add: CHUNK_SIZE_def)
  have z: "spec_trim (spec_xor [0x41, 0x42] [0x41, 0x42]) = []"
    by (simp add: spec_trim_def spec_xor_def spec_byte_def)
  from C9_trimmed_output_written [OF a n, of stale_chunk stale_chunk "[0x41, 0x42]" "[0x41, 0x42]"] z
  have e: "xor_files full_sink_env CHUNK_SIZE False stale_chunk stale_chunk
        (open_input_stream [0x41, 0x42]) (open_input_stream [0x41, 0x42]) = Inr []"
    by blast
  have run: "xor_files ideal_env CHUNK_SIZE False stale_chunk stale_chunk
        (open_input_stream [0x41, 0x42, 0x00]) (open_input_stream [0x41]) = Inr [0x00, 0x42]"
    by (simp add: xor_files_def xor_loop.simps xor_step_def fread_def memset_def Let_def
        ideal_env_def CHUNK_SIZE_def open_input_stream_def)
  from C9_trimmed_output_written [OF a' n, of stale_chunk stale_chunk "[0x41, 0x42, 0x00]" "[0x41]"] run
  have "last [0x00, 0x42 :: byte] \<noteq> 0"
    by simp
  with a a' w' n z e run show ?thesis
    by blast
qed

end
